theory Spec2Isabelle
  imports
    Main
    "HOL-Library.AList"
    "HOL-Library.Char_ord"
    "HOL-Library.List_Lexorder"
begin

section \<open>The tag store of filetag (lib/index.js, class FileTag)\<close>

subsection \<open>Data model\<close>

text \<open>
  One entry of the database object: \<^verbatim>\<open>{ tags: [...], created: "...", modified: "..." }\<close>.
\<close>

record tag_record =
  tags :: "string list"
  created :: string
  modified :: string

text \<open>
  \<^verbatim>\<open>this.db\<close> is a plain JavaScript object keyed by absolute paths.  \<^verbatim>\<open>Object.entries\<close>
  and \<^verbatim>\<open>Object.values\<close> walk string keys in insertion order, so the object is an
  association list: a new key goes to the end, an existing key is updated in place.
  Keys come from \<^verbatim>\<open>path.resolve\<close>, which returns an absolute path, so a key is never an
  array index and never the name of a property inherited from \<^verbatim>\<open>Object.prototype\<close>.
\<close>

type_synonym database = "(string \<times> tag_record) list"

text \<open>The instance: \<^verbatim>\<open>this.dbPath\<close> and \<^verbatim>\<open>this.db\<close>, which is \<^verbatim>\<open>null\<close> until \<^verbatim>\<open>init\<close> has run.\<close>

record filetag =
  dbPath :: string
  db :: "database option"

definition new_FileTag :: "string \<Rightarrow> filetag" where
  "new_FileTag p = \<lparr>dbPath = p, db = None\<rparr>"

subsection \<open>The world outside the instance\<close>

text \<open>
  The file system is a flat map from paths to nodes.  \<open>calls\<close> logs every call the
  program makes to the \<^verbatim>\<open>fs\<close> module, in order; \<open>ticks\<close> counts the readings of the clock.
  \<open>Rename\<close> is part of the \<^verbatim>\<open>fs\<close> interface although lib/index.js never calls it.
\<close>

datatype node = File string | Dir

datatype fs_call =
    ReadFile string
  | WriteFile string string
  | Access string
  | Rename string string

record world =
  files :: "string \<rightharpoonup> node"
  calls :: "fs_call list"
  ticks :: nat

text \<open>
  What a rejected promise carries.  \<open>FileNotFound p\<close> is
  \<^verbatim>\<open>new Error(`File not found: ${p}`)\<close>; \<open>ENOENT\<close> and \<open>EISDIR\<close> are the errors of the
  \<^verbatim>\<open>fs\<close> module; \<open>TypeError\<close> is a property read on \<^verbatim>\<open>null\<close> or \<^verbatim>\<open>undefined\<close>.
\<close>

datatype error = FileNotFound string | ENOENT string | EISDIR string | TypeError

text \<open>
  The functions of the Node.js runtime that the class calls and that are no part of the
  repository: \<^verbatim>\<open>path.resolve\<close> (with the working directory of the process),
  \<^verbatim>\<open>JSON.parse\<close> (\<open>None\<close> where it throws a SyntaxError; a document that parses to
  something other than an object of tag records is outside this model),
  \<^verbatim>\<open>JSON.stringify(_, null, 2)\<close> and the clock behind \<^verbatim>\<open>new Date().toISOString()\<close>,
  as a function of the number of earlier readings.
\<close>

record runtime =
  path_resolve :: "string \<Rightarrow> string"
  json_parse :: "string \<Rightarrow> database option"
  json_stringify :: "database option \<Rightarrow> string"
  toISOString :: "nat \<Rightarrow> string"

type_synonym 'a outcome = "(error + 'a) \<times> filetag \<times> world"

definition fs_readFile :: "string \<Rightarrow> world \<Rightarrow> (error + string) \<times> world" where
  "fs_readFile p w =
     (case files w p of
        None \<Rightarrow> Inl (ENOENT p)
      | Some Dir \<Rightarrow> Inl (EISDIR p)
      | Some (File c) \<Rightarrow> Inr c,
      w\<lparr>calls := calls w @ [ReadFile p]\<rparr>)"

text \<open>
  \<^verbatim>\<open>fs.writeFile\<close> creates or replaces the file; it fails on a directory.  (The model has
  no directory tree: the parent directory of the path is taken to exist.)
\<close>

definition fs_writeFile :: "string \<Rightarrow> string \<Rightarrow> world \<Rightarrow> (error + unit) \<times> world" where
  "fs_writeFile p c w =
     (case files w p of
        Some Dir \<Rightarrow> (Inl (EISDIR p), w\<lparr>calls := calls w @ [WriteFile p c]\<rparr>)
      | _ \<Rightarrow> (Inr (), w\<lparr>files := (files w)(p \<mapsto> File c), calls := calls w @ [WriteFile p c]\<rparr>))"

definition fs_access :: "string \<Rightarrow> world \<Rightarrow> (error + unit) \<times> world" where
  "fs_access p w =
     (case files w p of None \<Rightarrow> Inl (ENOENT p) | Some _ \<Rightarrow> Inr (),
      w\<lparr>calls := calls w @ [Access p]\<rparr>)"

definition new_Date :: "runtime \<Rightarrow> world \<Rightarrow> string \<times> world" where
  "new_Date env w = (toISOString env (ticks w), w\<lparr>ticks := Suc (ticks w)\<rparr>)"

subsection \<open>JavaScript's Set and sort\<close>

text \<open>
  A \<^verbatim>\<open>Set\<close> keeps its elements in insertion order and ignores an element it already has:
  a list without repetitions.  \<^verbatim>\<open>Array.from\<close> of it is that list.
\<close>

definition Set_add :: "'a list \<Rightarrow> 'a \<Rightarrow> 'a list" where
  "Set_add s x = (if x \<in> set s then s else s @ [x])"

definition new_Set :: "'a list \<Rightarrow> 'a list" where
  "new_Set xs = foldl Set_add [] xs"

definition Set_has :: "'a list \<Rightarrow> 'a \<Rightarrow> bool" where
  "Set_has s x = (x \<in> set s)"

text \<open>
  \<^verbatim>\<open>Array.prototype.sort()\<close> without a comparator orders strings by their code units,
  a prefix before its extensions: the lexicographic order on character lists, a
  character of the model standing for a code unit.  The order is total, so every correct
  sorting algorithm returns the same list.
\<close>

definition Array_sort :: "string list \<Rightarrow> string list" where
  "Array_sort xs = sort xs"

subsection \<open>Persistence\<close>

text \<open>\<^verbatim>\<open>async save() { await fs.writeFile(this.dbPath, JSON.stringify(this.db, null, 2)); }\<close>\<close>

definition save :: "runtime \<Rightarrow> filetag \<Rightarrow> world \<Rightarrow> unit outcome" where
  "save env ft w =
     (case fs_writeFile (dbPath ft) (json_stringify env (db ft)) w of
        (r, w') \<Rightarrow> (r, ft, w'))"

text \<open>
  \<^verbatim>\<open>init\<close>: the \<^verbatim>\<open>catch\<close> block runs for every exception of the \<^verbatim>\<open>try\<close> block, whether
  \<^verbatim>\<open>fs.readFile\<close> rejected or \<^verbatim>\<open>JSON.parse\<close> threw.
\<close>

definition init :: "runtime \<Rightarrow> filetag \<Rightarrow> world \<Rightarrow> unit outcome" where
  "init env ft w =
     (case fs_readFile (dbPath ft) w of
        (Inr data, w1) \<Rightarrow>
          (case json_parse env data of
             Some d \<Rightarrow> (Inr (), ft\<lparr>db := Some d\<rparr>, w1)
           | None \<Rightarrow> save env (ft\<lparr>db := Some []\<rparr>) w1)
      | (Inl e, w1) \<Rightarrow> save env (ft\<lparr>db := Some []\<rparr>) w1)"

text \<open>The guard that opens every method: \<^verbatim>\<open>if (!this.db) { await this.init(); }\<close>\<close>

definition load_if_null :: "runtime \<Rightarrow> filetag \<Rightarrow> world \<Rightarrow> unit outcome" where
  "load_if_null env ft w = (if db ft = None then init env ft w else (Inr (), ft, w))"

subsection \<open>Mutation\<close>

text \<open>
  \<^verbatim>\<open>if (!this.db[absolutePath]) { this.db[absolutePath] = { tags: [], created: ..., modified: ... }; }\<close>
  The two timestamps are two readings of the clock.
\<close>

definition create_if_absent :: "runtime \<Rightarrow> string \<Rightarrow> database \<Rightarrow> world \<Rightarrow> database \<times> world" where
  "create_if_absent env absolutePath d w =
     (case map_of d absolutePath of
        Some r \<Rightarrow> (d, w)
      | None \<Rightarrow>
          (let (t1, w1) = new_Date env w;
               (t2, w2) = new_Date env w1
           in (d @ [(absolutePath, \<lparr>tags = [], created = t1, modified = t2\<rparr>)], w2)))"

definition addTags :: "runtime \<Rightarrow> filetag \<Rightarrow> string \<Rightarrow> string list \<Rightarrow> world \<Rightarrow> string list outcome" where
  "addTags env ft filePath newTags w =
     (case load_if_null env ft w of
        (Inl e, ft1, w1) \<Rightarrow> (Inl e, ft1, w1)
      | (Inr _, ft1, w1) \<Rightarrow>
          (let absolutePath = path_resolve env filePath in
           case fs_access absolutePath w1 of
             (Inl _, w2) \<Rightarrow> (Inl (FileNotFound absolutePath), ft1, w2)
           | (Inr _, w2) \<Rightarrow>
               (case db ft1 of
                  None \<Rightarrow> (Inl TypeError, ft1, w2)
                | Some d \<Rightarrow>
                    (let (d1, w3) = create_if_absent env absolutePath d w2 in
                     case map_of d1 absolutePath of
                       None \<Rightarrow> (Inl TypeError, ft1\<lparr>db := Some d1\<rparr>, w3)
                     | Some r \<Rightarrow>
                         (let existingTags = foldl Set_add (new_Set (tags r)) newTags;
                              (now, w4) = new_Date env w3;
                              d2 = AList.update absolutePath
                                     (r\<lparr>tags := existingTags, modified := now\<rparr>) d1
                          in case save env (ft1\<lparr>db := Some d2\<rparr>) w4 of
                               (Inl e, ft3, w5) \<Rightarrow> (Inl e, ft3, w5)
                             | (Inr _, ft3, w5) \<Rightarrow> (Inr existingTags, ft3, w5))))))"

definition removeTags :: "runtime \<Rightarrow> filetag \<Rightarrow> string \<Rightarrow> string list \<Rightarrow> world \<Rightarrow> string list outcome" where
  "removeTags env ft filePath oldTags w =
     (case load_if_null env ft w of
        (Inl e, ft1, w1) \<Rightarrow> (Inl e, ft1, w1)
      | (Inr _, ft1, w1) \<Rightarrow>
          (let absolutePath = path_resolve env filePath in
           case db ft1 of
             None \<Rightarrow> (Inl TypeError, ft1, w1)
           | Some d \<Rightarrow>
               (case map_of d absolutePath of
                  None \<Rightarrow> (Inr [], ft1, w1)
                | Some r \<Rightarrow>
                    (let tagSet = new_Set oldTags;
                         remaining = filter (\<lambda>tag. \<not> Set_has tagSet tag) (tags r);
                         (now, w2) = new_Date env w1;
                         d1 = AList.update absolutePath
                                (r\<lparr>tags := remaining, modified := now\<rparr>) d
                     in case save env (ft1\<lparr>db := Some d1\<rparr>) w2 of
                          (Inl e, ft2, w3) \<Rightarrow> (Inl e, ft2, w3)
                        | (Inr _, ft2, w3) \<Rightarrow> (Inr remaining, ft2, w3)))))"

subsection \<open>Queries\<close>

text \<open>\<^verbatim>\<open>return this.db[absolutePath]?.tags || [];\<close> (an array, even an empty one, is truthy).\<close>

definition getTags :: "runtime \<Rightarrow> filetag \<Rightarrow> string \<Rightarrow> world \<Rightarrow> string list outcome" where
  "getTags env ft filePath w =
     (case load_if_null env ft w of
        (Inl e, ft1, w1) \<Rightarrow> (Inl e, ft1, w1)
      | (Inr _, ft1, w1) \<Rightarrow>
          (let absolutePath = path_resolve env filePath in
           case db ft1 of
             None \<Rightarrow> (Inl TypeError, ft1, w1)
           | Some d \<Rightarrow>
               (case map_of d absolutePath of
                  None \<Rightarrow> (Inr [], ft1, w1)
                | Some r \<Rightarrow> (Inr (tags r), ft1, w1))))"

text \<open>The loop of \<^verbatim>\<open>findByTags\<close> over \<^verbatim>\<open>Object.entries(this.db)\<close>, with its accumulator.\<close>

fun findByTags_loop :: "string list \<Rightarrow> bool \<Rightarrow> database \<Rightarrow> string list \<Rightarrow> string list" where
  "findByTags_loop query matchAll [] results = results"
| "findByTags_loop query matchAll ((filePath, data) # rest) results =
     (let fileTags = new_Set (tags data) in
      if matchAll then
        (if list_all (\<lambda>tag. Set_has fileTags tag) query
         then findByTags_loop query matchAll rest (results @ [filePath])
         else findByTags_loop query matchAll rest results)
      else
        (if list_ex (\<lambda>tag. Set_has fileTags tag) query
         then findByTags_loop query matchAll rest (results @ [filePath])
         else findByTags_loop query matchAll rest results))"

definition findByTags :: "runtime \<Rightarrow> filetag \<Rightarrow> string list \<Rightarrow> bool \<Rightarrow> world \<Rightarrow> string list outcome" where
  "findByTags env ft query matchAll w =
     (case load_if_null env ft w of
        (Inl e, ft1, w1) \<Rightarrow> (Inl e, ft1, w1)
      | (Inr _, ft1, w1) \<Rightarrow>
          (case db ft1 of
             None \<Rightarrow> (Inl TypeError, ft1, w1)
           | Some d \<Rightarrow> (Inr (findByTags_loop query matchAll d []), ft1, w1)))"

text \<open>The loop of \<^verbatim>\<open>listAllTags\<close> over \<^verbatim>\<open>Object.values(this.db)\<close>.\<close>

fun listAllTags_loop :: "tag_record list \<Rightarrow> string list \<Rightarrow> string list" where
  "listAllTags_loop [] allTags = allTags"
| "listAllTags_loop (data # rest) allTags =
     listAllTags_loop rest (foldl Set_add allTags (tags data))"

definition listAllTags :: "runtime \<Rightarrow> filetag \<Rightarrow> world \<Rightarrow> string list outcome" where
  "listAllTags env ft w =
     (case load_if_null env ft w of
        (Inl e, ft1, w1) \<Rightarrow> (Inl e, ft1, w1)
      | (Inr _, ft1, w1) \<Rightarrow>
          (case db ft1 of
             None \<Rightarrow> (Inl TypeError, ft1, w1)
           | Some d \<Rightarrow> (Inr (Array_sort (listAllTags_loop (map snd d) [])), ft1, w1)))"

subsection \<open>A concrete runtime for the examples\<close>

text \<open>
  \<^verbatim>\<open>JSON.stringify(value, null, 2)\<close> on the values the class hands to it: \<^verbatim>\<open>null\<close>, or an
  object of tag records with the fields in the order \<^verbatim>\<open>addTags\<close> creates them.  Strings
  are quoted with the escapes of ECMA-262 (QuoteJSONString).
\<close>

definition hex_digit :: "nat \<Rightarrow> char" where
  "hex_digit n = ''0123456789abcdef'' ! (n mod 16)"

definition quote_char :: "char \<Rightarrow> string" where
  "quote_char c =
     (if c = CHR 0x22 then [CHR 0x5C, CHR 0x22]
      else if c = CHR 0x5C then [CHR 0x5C, CHR 0x5C]
      else if c = CHR 0x08 then [CHR 0x5C, CHR ''b'']
      else if c = CHR 0x09 then [CHR 0x5C, CHR ''t'']
      else if c = CHR 0x0A then [CHR 0x5C, CHR ''n'']
      else if c = CHR 0x0C then [CHR 0x5C, CHR ''f'']
      else if c = CHR 0x0D then [CHR 0x5C, CHR ''r'']
      else if (of_char c :: nat) < 32
        then [CHR 0x5C, CHR ''u'', CHR ''0'', CHR ''0'',
              hex_digit (of_char c div 16), hex_digit (of_char c)]
      else [c])"

definition quote :: "string \<Rightarrow> string" where
  "quote s = [CHR 0x22] @ concat (map quote_char s) @ [CHR 0x22]"

fun join :: "string \<Rightarrow> string list \<Rightarrow> string" where
  "join sep [] = []"
| "join sep [x] = x"
| "join sep (x # y # ys) = x @ sep @ join sep (y # ys)"

definition stringify_array :: "string \<Rightarrow> string list \<Rightarrow> string" where
  "stringify_array indent xs =
     (if xs = [] then ''[]''
      else ''['' @ [CHR 0x0A]
        @ join ('','' @ [CHR 0x0A]) (map (\<lambda>x. indent @ ''  '' @ quote x) xs)
        @ [CHR 0x0A] @ indent @ '']'')"

definition stringify_record :: "string \<Rightarrow> tag_record \<Rightarrow> string" where
  "stringify_record indent r =
     ''{'' @ [CHR 0x0A]
       @ indent @ ''  '' @ quote ''tags'' @ '': '' @ stringify_array (indent @ ''  '') (tags r)
       @ '','' @ [CHR 0x0A]
       @ indent @ ''  '' @ quote ''created'' @ '': '' @ quote (created r)
       @ '','' @ [CHR 0x0A]
       @ indent @ ''  '' @ quote ''modified'' @ '': '' @ quote (modified r)
       @ [CHR 0x0A] @ indent @ ''}''"

definition stringify :: "database option \<Rightarrow> string" where
  "stringify v =
     (case v of
        None \<Rightarrow> ''null''
      | Some d \<Rightarrow>
          (if d = [] then ''{}''
           else ''{'' @ [CHR 0x0A]
             @ join ('','' @ [CHR 0x0A])
                 (map (\<lambda>(k, r). ''  '' @ quote k @ '': '' @ stringify_record ''  '' r) d)
             @ [CHR 0x0A] @ ''}''))"

text \<open>
  The examples read two documents only: \<^verbatim>\<open>{}\<close>, which \<^verbatim>\<open>JSON.parse\<close> turns into the
  empty object, and the single character \<^verbatim>\<open>{\<close>, on which it throws.  The stand-in
  below agrees with \<^verbatim>\<open>JSON.parse\<close> on both and is not used on any other document.
\<close>

definition parse_sample :: "string \<Rightarrow> database option" where
  "parse_sample s = (if s = ''{}'' then Some [] else None)"

text \<open>
  \<^verbatim>\<open>path.resolve\<close> in a process whose working directory is \<^verbatim>\<open>/work\<close>, on paths without
  \<^verbatim>\<open>.\<close>, \<^verbatim>\<open>..\<close>, empty segments or a trailing slash: an absolute path is returned as it
  is, a relative one is appended to the working directory.
\<close>

definition resolve_sample :: "string \<Rightarrow> string" where
  "resolve_sample p = (case p of [] \<Rightarrow> ''/work'' | c # cs \<Rightarrow> if c = CHR ''/'' then p else ''/work/'' @ p)"

text \<open>A clock that is one second further at every reading (during its first minute).\<close>

definition clock_sample :: "nat \<Rightarrow> string" where
  "clock_sample n =
     ''2024-01-01T00:00:'' @ [''0123456789'' ! (n div 10 mod 6), ''0123456789'' ! (n mod 10)]
       @ ''.000Z''"

definition node_sample :: runtime where
  "node_sample =
     \<lparr>path_resolve = resolve_sample, json_parse = parse_sample,
      json_stringify = stringify, toISOString = clock_sample\<rparr>"

subsection \<open>Sample instances\<close>

text \<open>A fresh instance, as \<^verbatim>\<open>new FileTag('/work/.filetag.json')\<close> builds it.\<close>

definition fresh_sample :: filetag where
  "fresh_sample = new_FileTag ''/work/.filetag.json''"

text \<open>An instance whose store is loaded and tracks two files.\<close>

definition loaded_sample :: filetag where
  "loaded_sample =
     \<lparr>dbPath = ''/work/.filetag.json'',
      db = Some
        [(''/work/a.txt'',
          \<lparr>tags = [''work'', ''draft''], created = ''2023-12-31T10:00:00.000Z'',
           modified = ''2023-12-31T10:00:00.000Z''\<rparr>),
         (''/work/b.txt'',
          \<lparr>tags = [''personal'', ''draft''], created = ''2023-12-31T11:00:00.000Z'',
           modified = ''2023-12-31T12:00:00.000Z''\<rparr>)]\<rparr>"

text \<open>A file system with two files and no backing file yet.\<close>

definition world_sample :: world where
  "world_sample =
     \<lparr>files = [''/work/a.txt'' \<mapsto> File ''hello'', ''/work/b.txt'' \<mapsto> File ''world''],
      calls = [], ticks = 0\<rparr>"

text \<open>The same, with a backing file that is cut off after its first character.\<close>

definition world_corrupt :: world where
  "world_corrupt =
     \<lparr>files = [''/work/a.txt'' \<mapsto> File ''hello'', ''/work/.filetag.json'' \<mapsto> File ''{''],
      calls = [], ticks = 0\<rparr>"

subsection \<open>Auxiliary notions for the statements\<close>

text \<open>The tag list a store holds for a path: the value of \<^verbatim>\<open>db[p]?.tags || []\<close>.\<close>

definition old_tags :: "database \<Rightarrow> string \<Rightarrow> string list" where
  "old_tags d p = (case map_of d p of None \<Rightarrow> [] | Some r \<Rightarrow> tags r)"

lemmas sample_defs =
  node_sample_def resolve_sample_def clock_sample_def parse_sample_def
  fresh_sample_def loaded_sample_def world_sample_def new_FileTag_def

lemmas op_defs =
  load_if_null_def init_def save_def fs_readFile_def fs_writeFile_def fs_access_def
  new_Date_def create_if_absent_def new_Set_def Set_add_def Set_has_def Let_def

section \<open>Properties of the building blocks\<close>

subsection \<open>Set\<close>

lemma set_Set_add: "set (Set_add s x) = insert x (set s)"
  by (auto simp: Set_add_def)

lemma distinct_Set_add: "distinct s \<Longrightarrow> distinct (Set_add s x)"
  by (simp add: Set_add_def)

lemma set_foldl_Set_add: "set (foldl Set_add s xs) = set s \<union> set xs"
  by (induction xs arbitrary: s) (auto simp: set_Set_add)

lemma distinct_foldl_Set_add: "distinct s \<Longrightarrow> distinct (foldl Set_add s xs)"
  by (induction xs arbitrary: s) (auto simp: distinct_Set_add)

lemma set_new_Set: "set (new_Set xs) = set xs"
  by (simp add: new_Set_def set_foldl_Set_add)

lemma distinct_new_Set: "distinct (new_Set xs)"
  by (simp add: new_Set_def distinct_foldl_Set_add)

lemma foldl_Set_add_append:
  "distinct ys \<Longrightarrow> set ys \<inter> set s = {} \<Longrightarrow> foldl Set_add s ys = s @ ys"
  by (induction ys arbitrary: s) (auto simp: Set_add_def)

lemma new_Set_distinct: "distinct xs \<Longrightarrow> new_Set xs = xs"
  using foldl_Set_add_append [of xs "[]"] by (simp add: new_Set_def)

lemma Set_has_new_Set: "Set_has (new_Set xs) x = (x \<in> set xs)"
  by (simp add: Set_has_def set_new_Set)

subsection \<open>save, init and the guard\<close>

lemma save_cases:
  "save env ft w =
     (if files w (dbPath ft) = Some Dir
      then (Inl (EISDIR (dbPath ft)), ft,
            w\<lparr>calls := calls w @ [WriteFile (dbPath ft) (json_stringify env (db ft))]\<rparr>)
      else (Inr (), ft,
            w\<lparr>files := (files w)(dbPath ft \<mapsto> File (json_stringify env (db ft))),
              calls := calls w @ [WriteFile (dbPath ft) (json_stringify env (db ft))]\<rparr>))"
  by (auto simp: save_def fs_writeFile_def split: option.splits node.splits)

lemma init_loads:
  "init env ft w = (r, ft1, w1) \<Longrightarrow> \<exists>d. ft1 = ft\<lparr>db := Some d\<rparr>"
  by (auto simp: init_def save_cases fs_readFile_def split: option.splits node.splits if_splits)

lemma init_files:
  "init env ft w = (r, ft1, w1) \<Longrightarrow>
     files w1 = files w \<or> (\<exists>c. files w1 = (files w)(dbPath ft \<mapsto> File c))"
  by (auto simp: init_def save_cases fs_readFile_def split: option.splits node.splits if_splits)

lemma init_ok:
  "files w (dbPath ft) \<noteq> Some Dir \<Longrightarrow> \<exists>ft1 w1. init env ft w = (Inr (), ft1, w1)"
  by (auto simp: init_def save_cases fs_readFile_def split: option.splits node.splits if_splits)

lemma init_unparsable:
  assumes "files w (dbPath ft) = Some (File content)" and "json_parse env content = None"
  shows "init env ft w =
           (Inr (), ft\<lparr>db := Some []\<rparr>,
            w\<lparr>files := (files w)(dbPath ft \<mapsto> File (json_stringify env (Some []))),
              calls := calls w @ [ReadFile (dbPath ft),
                                  WriteFile (dbPath ft) (json_stringify env (Some []))]\<rparr>)"
  using assms by (simp add: init_def fs_readFile_def save_cases)

lemma load_if_null_loaded: "db ft = Some d \<Longrightarrow> load_if_null env ft w = (Inr (), ft, w)"
  by (simp add: load_if_null_def)

lemma load_if_null_loads:
  "load_if_null env ft w = (r, ft1, w1) \<Longrightarrow> dbPath ft1 = dbPath ft \<and> (\<exists>d. db ft1 = Some d)"
  by (auto simp: load_if_null_def dest: init_loads split: if_splits)

lemma load_if_null_files:
  "load_if_null env ft w = (r, ft1, w1) \<Longrightarrow>
     files w1 = files w \<or> (\<exists>c. files w1 = (files w)(dbPath ft \<mapsto> File c))"
  by (auto simp: load_if_null_def dest: init_files split: if_splits)

lemma load_if_null_ok:
  "files w (dbPath ft) \<noteq> Some Dir \<Longrightarrow> \<exists>ft1 w1. load_if_null env ft w = (Inr (), ft1, w1)"
  using init_ok [of w ft env] by (auto simp: load_if_null_def)

subsection \<open>getTags and addTags on a loaded store\<close>

lemma getTags_after_load:
  assumes "load_if_null env ft w = (Inr (), ft1, w1)" and "db ft1 = Some d"
  shows "getTags env ft filePath w = (Inr (old_tags d (path_resolve env filePath)), ft1, w1)"
  using assms by (simp add: getTags_def old_tags_def split: option.splits)

lemma addTags_after_load:
  assumes "load_if_null env ft w = (Inr (), ft1, w1)"
  shows "addTags env ft filePath newTags w = addTags env ft1 filePath newTags w1"
proof -
  from load_if_null_loads [OF assms] obtain d where "db ft1 = Some d" by blast
  then have "load_if_null env ft1 w1 = (Inr (), ft1, w1)" by (rule load_if_null_loaded)
  with assms show ?thesis by (simp add: addTags_def)
qed

lemma addTags_InrD:
  assumes "addTags env ft filePath newTags w = (Inr ts, ft', w')"
  shows "\<exists>ft1 w1. load_if_null env ft w = (Inr (), ft1, w1)"
  using assms by (auto simp: addTags_def split: prod.splits sum.splits)

lemma create_if_absent_props:
  assumes "create_if_absent env p d w = (d1, w1)"
  shows "\<exists>r. map_of d1 p = Some r \<and> tags r = old_tags d p
           \<and> (\<forall>q. q \<noteq> p \<longrightarrow> map_of d1 q = map_of d q)
           \<and> files w1 = files w \<and> calls w1 = calls w"
  using assms
  by (auto simp: create_if_absent_def new_Date_def old_tags_def Let_def map_add_def
      split: option.splits)

text \<open>What a successful \<open>addTags\<close> on a loaded store returns and leaves behind.\<close>

lemma addTags_loaded_InrD:
  assumes "db ft = Some d" and "addTags env ft filePath newTags w = (Inr ts, ft', w')"
  shows "ts = foldl Set_add (new_Set (old_tags d (path_resolve env filePath))) newTags
         \<and> dbPath ft' = dbPath ft
         \<and> files w' (path_resolve env filePath) \<noteq> None
         \<and> files w' (dbPath ft) \<noteq> Some Dir
         \<and> (\<exists>d' r'. db ft' = Some d' \<and> map_of d' (path_resolve env filePath) = Some r'
                \<and> tags r' = ts)"
proof -
  let ?p = "path_resolve env filePath"
  obtain d1 w3 where c: "create_if_absent env ?p d (snd (fs_access ?p w)) = (d1, w3)"
    by (cases "create_if_absent env ?p d (snd (fs_access ?p w))")
  from create_if_absent_props [OF c] obtain r where
    r: "map_of d1 ?p = Some r" "tags r = old_tags d ?p"
      "files w3 = files (snd (fs_access ?p w))" by blast
  have a: "files (snd (fs_access ?p w)) = files w" by (simp add: fs_access_def)
  have b: "fst (fs_access ?p w) = Inr () \<Longrightarrow> files w ?p \<noteq> None"
    by (auto simp: fs_access_def split: option.splits)
  show ?thesis
    using assms c r a b
    by (auto simp: addTags_def load_if_null_loaded save_cases new_Date_def Let_def update_conv'
        split: prod.splits sum.splits if_splits)
qed

text \<open>It succeeds when the file exists and the backing path is not a directory.\<close>

lemma addTags_loaded_ok:
  assumes "db ft = Some d" and "files w (path_resolve env filePath) \<noteq> None"
    and "files w (dbPath ft) \<noteq> Some Dir"
  shows "\<exists>ts ft' w'. addTags env ft filePath newTags w = (Inr ts, ft', w')"
proof -
  let ?p = "path_resolve env filePath"
  obtain e w2 where a: "fs_access ?p w = (Inr e, w2)" "files w2 = files w"
    using assms(2) by (auto simp: fs_access_def)
  obtain d1 w3 where c: "create_if_absent env ?p d w2 = (d1, w3)"
    by (cases "create_if_absent env ?p d w2")
  from create_if_absent_props [OF c] obtain r where
    r: "map_of d1 ?p = Some r" "files w3 = files w2" by blast
  show ?thesis
    using assms a c r
    by (auto simp: addTags_def load_if_null_loaded save_cases new_Date_def Let_def)
qed

text \<open>
  The tags are stored as they are supplied: the result has no repeated string and holds
  the earlier tags together with the new ones, and \<open>getTags\<close> returns it.
\<close>

lemma addTags_result:
  assumes "addTags env ft filePath newTags w = (Inr ts, ft', w')"
  shows "fst (getTags env ft' filePath w') = Inr ts
         \<and> distinct ts
         \<and> (\<exists>before. fst (getTags env ft filePath w) = Inr before
                      \<and> set ts = set before \<union> set newTags)"
proof -
  let ?p = "path_resolve env filePath"
  from addTags_InrD [OF assms] obtain ft1 w1 where
    l: "load_if_null env ft w = (Inr (), ft1, w1)" by blast
  from load_if_null_loads [OF l] obtain d where d: "db ft1 = Some d" by blast
  from assms addTags_after_load [OF l] have
    a: "addTags env ft1 filePath newTags w1 = (Inr ts, ft', w')" by simp
  from addTags_loaded_InrD [OF d a] obtain d' r' where
    ts: "ts = foldl Set_add (new_Set (old_tags d ?p)) newTags"
    and d': "db ft' = Some d'" and r': "map_of d' ?p = Some r'" "tags r' = ts" by blast
  have "getTags env ft' filePath w' = (Inr (old_tags d' ?p), ft', w')"
    using d' by (intro getTags_after_load load_if_null_loaded)
  then have 1: "fst (getTags env ft' filePath w') = Inr ts"
    by (simp add: old_tags_def r')
  have 2: "distinct ts"
    by (simp add: ts distinct_foldl_Set_add distinct_new_Set)
  have 3: "fst (getTags env ft filePath w) = Inr (old_tags d ?p)"
    by (simp add: getTags_after_load [OF l d])
  have 4: "set ts = set (old_tags d ?p) \<union> set newTags"
    by (simp add: ts set_foldl_Set_add set_new_Set)
  from 1 2 3 4 show ?thesis by blast
qed

subsection \<open>The loops of the queries\<close>

lemma findByTags_loop_filter:
  "findByTags_loop query matchAll d results =
     results @ map fst (filter (\<lambda>(p, r). if matchAll then set query \<subseteq> set (tags r)
                                           else set (tags r) \<inter> set query \<noteq> {}) d)"
  by (induction query matchAll d results rule: findByTags_loop.induct)
     (auto simp: Set_has_new_Set list_all_iff list_ex_iff)

lemma set_listAllTags_loop:
  "set (listAllTags_loop rs allTags) = set allTags \<union> (\<Union>r\<in>set rs. set (tags r))"
  by (induction rs arbitrary: allTags) (auto simp: set_foldl_Set_add)

lemma distinct_listAllTags_loop:
  "distinct allTags \<Longrightarrow> distinct (listAllTags_loop rs allTags)"
  by (induction rs arbitrary: allTags) (auto simp: distinct_foldl_Set_add)

section \<open>The claims\<close>

subsection \<open>Persistence\<close>

text \<open>
  Claim C1.  The specification and the README ask \<open>save\<close> to write the serialized store
  to a temporary file beside the backing file and to rename it over the backing file.
  The code calls \<^verbatim>\<open>fs.writeFile\<close> on the backing path itself and nothing else: saving the
  empty store of the sample instance makes exactly one call, a write of \<^verbatim>\<open>{}\<close> to
  \<^verbatim>\<open>/work/.filetag.json\<close>; it is not a write to another path followed by a rename.
\<close>

theorem save_writes_backing_file_directly:
  "calls (snd (snd (save node_sample (fresh_sample\<lparr>db := Some []\<rparr>) world_sample)))
     = [WriteFile ''/work/.filetag.json'' ''{}'']
   \<and> \<not> (\<exists>tmp content.
          calls (snd (snd (save node_sample (fresh_sample\<lparr>db := Some []\<rparr>) world_sample)))
            = [WriteFile tmp content, Rename tmp ''/work/.filetag.json''])"
  by (simp add: save_cases sample_defs stringify_def)

text \<open>
  Claim C3.  The specification asks loading to fail on a backing file that does not
  parse.  In the code the \<^verbatim>\<open>catch\<close> block of \<open>init\<close>, commented as the case of a missing
  file, also runs when \<^verbatim>\<open>JSON.parse\<close> throws: on a backing file holding the single
  character \<^verbatim>\<open>{\<close>, \<open>init\<close> succeeds, the store is the empty one and the backing file has
  been overwritten with \<^verbatim>\<open>{}\<close>.
\<close>

theorem init_reinitializes_corrupt_store:
  "files world_corrupt ''/work/.filetag.json'' = Some (File ''{'')
   \<and> fst (init node_sample fresh_sample world_corrupt) = Inr ()
   \<and> db (fst (snd (init node_sample fresh_sample world_corrupt))) = Some []
   \<and> files (snd (snd (init node_sample fresh_sample world_corrupt))) ''/work/.filetag.json''
       = Some (File ''{}'')"
  by (simp add: op_defs sample_defs world_corrupt_def stringify_def)

subsection \<open>addTags\<close>

text \<open>
  Claim C2.  The specification and the README ask every tag to be trimmed and put in
  lower case before it is stored.  The code stores the string it is given: after
  \<^verbatim>\<open>addTags('a.txt', [' Work '])\<close> on a fresh instance, \<^verbatim>\<open>getTags('a.txt')\<close> returns
  \<^verbatim>\<open>[' Work ']\<close>, and adding \<^verbatim>\<open>'Work '\<close> and \<^verbatim>\<open>'work'\<close> stores both.
\<close>

theorem addTags_keeps_tags_verbatim:
  "fst (getTags node_sample
          (fst (snd (addTags node_sample fresh_sample ''a.txt'' ['' Work ''] world_sample)))
          ''a.txt''
          (snd (snd (addTags node_sample fresh_sample ''a.txt'' ['' Work ''] world_sample))))
     = Inr ['' Work '']
   \<and> fst (addTags node_sample fresh_sample ''a.txt'' [''Work '', ''work''] world_sample)
     = Inr [''Work '', ''work'']"
  by (simp add: addTags_def getTags_def op_defs sample_defs)

text \<open>
  Claim C4, as stated, fails: \<open>addTags\<close> runs the guard before it checks that the file
  exists, and on a fresh instance without a backing file the guard's \<open>init\<close> creates the
  backing file.  The call is rejected with the file-not-found error, and the backing
  file, absent before, holds \<^verbatim>\<open>{}\<close> afterwards.
\<close>

theorem addTags_missing_file_counterexample:
  "fst (addTags node_sample fresh_sample ''/non/existent/file.txt'' [''tag1''] world_sample)
     = Inl (FileNotFound ''/non/existent/file.txt'')
   \<and> files world_sample ''/work/.filetag.json'' = None
   \<and> files (snd (snd (addTags node_sample fresh_sample ''/non/existent/file.txt'' [''tag1'']
        world_sample))) ''/work/.filetag.json'' = Some (File ''{}'')"
  by (simp add: addTags_def op_defs sample_defs stringify_def)

text \<open>
  Claim C4, amended.  When the guard succeeds and the resolved path has no file system
  entry, \<open>addTags\<close> is rejected with the file-not-found error for that path, and the
  instance and the file system are as the guard left them (the one further call to
  \<^verbatim>\<open>fs\<close> is the existence check itself).  On a store that was already loaded the guard
  does nothing, so the records and every file, the backing file included, are
  unchanged.
\<close>

theorem addTags_missing_file:
  assumes "load_if_null env ft w = (Inr (), ft1, w1)"
    and "files w1 (path_resolve env filePath) = None"
  shows "addTags env ft filePath newTags w =
           (Inl (FileNotFound (path_resolve env filePath)), ft1,
            w1\<lparr>calls := calls w1 @ [Access (path_resolve env filePath)]\<rparr>)
         \<and> (db ft \<noteq> None \<longrightarrow> ft1 = ft \<and> w1 = w)"
  using assms by (auto simp: addTags_def fs_access_def load_if_null_def Let_def)

theorem addTags_missing_file_witness:
  "load_if_null node_sample loaded_sample world_sample = (Inr (), loaded_sample, world_sample)
   \<and> files world_sample (path_resolve node_sample ''/non/existent/file.txt'') = None
   \<and> addTags node_sample loaded_sample ''/non/existent/file.txt'' [''tag1''] world_sample =
       (Inl (FileNotFound ''/non/existent/file.txt''), loaded_sample,
        world_sample\<lparr>calls := [Access ''/non/existent/file.txt'']\<rparr>)"
proof -
  have a: "load_if_null node_sample loaded_sample world_sample
             = (Inr (), loaded_sample, world_sample)"
    by (simp add: load_if_null_def loaded_sample_def)
  have b: "files world_sample (path_resolve node_sample ''/non/existent/file.txt'') = None"
    by (simp add: sample_defs)
  have c: "path_resolve node_sample ''/non/existent/file.txt'' = ''/non/existent/file.txt''"
    by (simp add: sample_defs)
  have d: "calls world_sample = []" by (simp add: sample_defs)
  from addTags_missing_file [OF a b, of "[''tag1'']"] a b show ?thesis
    by (simp add: c d)
qed

text \<open>
  Claim C7.  \<open>addTags\<close> is idempotent on the tag list: whenever \<^verbatim>\<open>addTags(f, [t])\<close>
  returns a tag list, a second \<^verbatim>\<open>addTags(f, [t])\<close> on the resulting instance and file
  system returns the same list.  The first call does return when \<open>f\<close> exists and the
  backing path is not a directory.
\<close>

theorem addTags_idempotent:
  "(files w (path_resolve env f) \<noteq> None \<and> files w (dbPath ft) \<noteq> Some Dir
      \<longrightarrow> (\<exists>ts ft' w'. addTags env ft f [t] w = (Inr ts, ft', w')))
   \<and> (\<forall>ts ft' w'. addTags env ft f [t] w = (Inr ts, ft', w')
         \<longrightarrow> fst (addTags env ft' f [t] w') = Inr ts)"
proof (intro conjI impI allI)
  let ?p = "path_resolve env f"
  assume ex: "files w ?p \<noteq> None \<and> files w (dbPath ft) \<noteq> Some Dir"
  then obtain ft1 w1 where l: "load_if_null env ft w = (Inr (), ft1, w1)"
    using load_if_null_ok by blast
  from load_if_null_loads [OF l] obtain d where
    d: "db ft1 = Some d" and p: "dbPath ft1 = dbPath ft" by blast
  from load_if_null_files [OF l] ex have
    "files w1 ?p \<noteq> None" and "files w1 (dbPath ft1) \<noteq> Some Dir"
    by (auto simp: p)
  from addTags_loaded_ok [OF d this] addTags_after_load [OF l]
  show "\<exists>ts ft' w'. addTags env ft f [t] w = (Inr ts, ft', w')" by simp
next
  fix ts ft' w'
  let ?p = "path_resolve env f"
  assume first: "addTags env ft f [t] w = (Inr ts, ft', w')"
  from addTags_InrD [OF first] obtain ft1 w1 where
    l: "load_if_null env ft w = (Inr (), ft1, w1)" by blast
  from load_if_null_loads [OF l] obtain d where d: "db ft1 = Some d" by blast
  from first addTags_after_load [OF l] have
    first': "addTags env ft1 f [t] w1 = (Inr ts, ft', w')" by simp
  from addTags_loaded_InrD [OF d first'] obtain d' r' where
    ts: "ts = foldl Set_add (new_Set (old_tags d ?p)) [t]"
    and p': "dbPath ft' = dbPath ft1"
    and g1: "files w' ?p \<noteq> None" and g2: "files w' (dbPath ft1) \<noteq> Some Dir"
    and d': "db ft' = Some d'" and r': "map_of d' ?p = Some r'" "tags r' = ts" by blast
  from g2 p' have g2': "files w' (dbPath ft') \<noteq> Some Dir" by simp
  from addTags_loaded_ok [OF d' g1 g2'] obtain ts2 ft2 w2 where
    second: "addTags env ft' f [t] w' = (Inr ts2, ft2, w2)" by blast
  have dist: "distinct ts" by (simp add: ts distinct_Set_add distinct_new_Set)
  have mem: "t \<in> set ts" by (simp add: ts set_Set_add)
  from addTags_loaded_InrD [OF d' second] have
    "ts2 = foldl Set_add (new_Set (old_tags d' ?p)) [t]" by blast
  also have "old_tags d' ?p = ts" by (simp add: old_tags_def r')
  also have "new_Set ts = ts" using dist by (rule new_Set_distinct)
  also have "foldl Set_add ts [t] = ts" using mem by (simp add: Set_add_def)
  finally have "ts2 = ts" .
  with second show "fst (addTags env ft' f [t] w') = Inr ts" by simp
qed

theorem addTags_idempotent_witness:
  "files world_sample (path_resolve node_sample ''a.txt'') \<noteq> None
   \<and> files world_sample (dbPath fresh_sample) \<noteq> Some Dir
   \<and> fst (addTags node_sample fresh_sample ''a.txt'' [''work''] world_sample) = Inr [''work'']
   \<and> fst (addTags node_sample
          (fst (snd (addTags node_sample fresh_sample ''a.txt'' [''work''] world_sample)))
          ''a.txt'' [''work'']
          (snd (snd (addTags node_sample fresh_sample ''a.txt'' [''work''] world_sample))))
     = Inr [''work'']"
proof -
  let ?first = "addTags node_sample fresh_sample ''a.txt'' [''work''] world_sample"
  have a: "files world_sample (path_resolve node_sample ''a.txt'') \<noteq> None"
    by (simp add: sample_defs)
  have b: "files world_sample (dbPath fresh_sample) \<noteq> Some Dir"
    by (simp add: sample_defs)
  have c: "fst ?first = Inr [''work'']"
    by (simp add: addTags_def op_defs sample_defs)
  then have e: "?first = (Inr [''work''], fst (snd ?first), snd (snd ?first))"
    by (metis prod.collapse)
  from addTags_idempotent [of world_sample node_sample "''a.txt''" fresh_sample "''work''"] e
  have "fst (addTags node_sample (fst (snd ?first)) ''a.txt'' [''work''] (snd (snd ?first)))
          = Inr [''work'']"
    by blast
  with a b c show ?thesis by simp
qed

subsection \<open>removeTags\<close>

text \<open>
  Claim C8.  When \<open>removeTags\<close> removes every tag of a record, the record stays in the
  store: the keys of the store and their order are the same, the record of the path has
  an empty tag list, its \<open>created\<close> is the old one and its \<open>modified\<close> is the clock
  reading of the call, and every other record is untouched.  The call returns the empty
  list when the backing path is not a directory.
\<close>

theorem removeTags_keeps_emptied_record:
  assumes "load_if_null env ft w = (Inr (), ft1, w1)"
    and "db ft1 = Some d"
    and "map_of d (path_resolve env filePath) = Some r"
    and "set (tags r) \<subseteq> set oldTags"
    and "removeTags env ft filePath oldTags w = (res, ft2, w2)"
  shows "\<exists>d2 r2. db ft2 = Some d2
           \<and> map fst d2 = map fst d
           \<and> map_of d2 (path_resolve env filePath) = Some r2
           \<and> tags r2 = [] \<and> created r2 = created r
           \<and> modified r2 = toISOString env (ticks w1)
           \<and> (\<forall>q. q \<noteq> path_resolve env filePath \<longrightarrow> map_of d2 q = map_of d q)
           \<and> (files w1 (dbPath ft1) \<noteq> Some Dir \<longrightarrow> res = Inr [])"
proof -
  let ?p = "path_resolve env filePath"
  let ?r2 = "r\<lparr>tags := [], modified := toISOString env (ticks w1)\<rparr>"
  let ?d2 = "AList.update ?p ?r2 d"
  have e: "filter (\<lambda>tag. \<not> Set_has (new_Set oldTags) tag) (tags r) = []"
    using assms(4) by (auto simp: Set_has_new_Set filter_empty_conv)
  have k: "?p \<in> fst ` set d" using assms(3) by (force dest: map_of_SomeD)
  from assms(1,2,3,5) e have
    "db ft2 = Some ?d2" and "files w1 (dbPath ft1) \<noteq> Some Dir \<longrightarrow> res = Inr []"
    by (auto simp: removeTags_def new_Date_def save_cases Let_def split: if_splits)
  moreover have "map fst ?d2 = map fst d" using k by (simp add: update_keys)
  moreover have "map_of ?d2 ?p = Some ?r2" by (simp add: update_conv')
  moreover have "\<forall>q. q \<noteq> ?p \<longrightarrow> map_of ?d2 q = map_of d q" by (simp add: update_conv')
  ultimately show ?thesis by auto
qed

theorem removeTags_keeps_emptied_record_witness:
  "removeTags node_sample loaded_sample ''a.txt'' [''draft'', ''work'', ''other''] world_sample
     = (Inr [],
        loaded_sample\<lparr>db := Some
          [(''/work/a.txt'',
            \<lparr>tags = [], created = ''2023-12-31T10:00:00.000Z'',
             modified = ''2024-01-01T00:00:00.000Z''\<rparr>),
           (''/work/b.txt'',
            \<lparr>tags = [''personal'', ''draft''], created = ''2023-12-31T11:00:00.000Z'',
             modified = ''2023-12-31T12:00:00.000Z''\<rparr>)]\<rparr>,
        snd (snd (removeTags node_sample loaded_sample ''a.txt'' [''draft'', ''work'', ''other'']
          world_sample)))"
proof -
  let ?call = "removeTags node_sample loaded_sample ''a.txt'' [''draft'', ''work'', ''other'']
                 world_sample"
  let ?r = "\<lparr>tags = [''work'', ''draft''], created = ''2023-12-31T10:00:00.000Z'',
             modified = ''2023-12-31T10:00:00.000Z''\<rparr>"
  have a: "load_if_null node_sample loaded_sample world_sample
             = (Inr (), loaded_sample, world_sample)"
    by (simp add: load_if_null_def loaded_sample_def)
  have b: "db loaded_sample = Some (the (db loaded_sample))" by (simp add: loaded_sample_def)
  have c: "map_of (the (db loaded_sample)) (path_resolve node_sample ''a.txt'') = Some ?r"
    by (simp add: sample_defs)
  have d: "set (tags ?r) \<subseteq> set [''draft'', ''work'', ''other'']" by simp
  have e: "?call = (fst ?call, fst (snd ?call), snd (snd ?call))" by simp
  have f: "files world_sample (dbPath loaded_sample) \<noteq> Some Dir" by (simp add: sample_defs)
  have g: "fst (snd ?call) = loaded_sample\<lparr>db := Some
          [(''/work/a.txt'',
            \<lparr>tags = [], created = ''2023-12-31T10:00:00.000Z'',
             modified = ''2024-01-01T00:00:00.000Z''\<rparr>),
           (''/work/b.txt'',
            \<lparr>tags = [''personal'', ''draft''], created = ''2023-12-31T11:00:00.000Z'',
             modified = ''2023-12-31T12:00:00.000Z''\<rparr>)]\<rparr>"
    by (simp add: removeTags_def op_defs sample_defs)
  from removeTags_keeps_emptied_record [OF a b c d e] f have "fst ?call = Inr []"
    by blast
  with g show ?thesis by (metis prod.collapse)
qed

text \<open>
  Claim C10.  On a loaded store without a record for the resolved path, \<open>removeTags\<close>
  returns the empty list and changes nothing: the instance is the same, and so is the
  world, whose log of \<^verbatim>\<open>fs\<close> calls has no new entry (\<open>save\<close> did not run) and whose clock
  was not read.
\<close>

theorem removeTags_untracked:
  assumes "db ft = Some d" and "map_of d (path_resolve env filePath) = None"
  shows "removeTags env ft filePath oldTags w = (Inr [], ft, w)"
  using assms by (simp add: removeTags_def load_if_null_loaded)

theorem removeTags_untracked_witness:
  "map_of (the (db loaded_sample)) (path_resolve node_sample ''c.txt'') = None
   \<and> removeTags node_sample loaded_sample ''c.txt'' [''work''] world_sample
       = (Inr [], loaded_sample, world_sample)"
proof -
  have a: "db loaded_sample = Some (the (db loaded_sample))" by (simp add: loaded_sample_def)
  have b: "map_of (the (db loaded_sample)) (path_resolve node_sample ''c.txt'') = None"
    by (simp add: sample_defs)
  from removeTags_untracked [OF a b] b show ?thesis by simp
qed

subsection \<open>Queries\<close>

text \<open>
  Claim C5.  Once the store is loaded, \<open>findByTags\<close> with an empty query returns every
  tracked path (the keys of the store, in their order) in AND mode and no path in OR
  mode.
\<close>

theorem findByTags_empty_query:
  assumes "load_if_null env ft w = (Inr (), ft1, w1)"
  shows "\<exists>d. db ft1 = Some d
           \<and> findByTags env ft [] True w = (Inr (map fst d), ft1, w1)
           \<and> findByTags env ft [] False w = (Inr [], ft1, w1)"
proof -
  from load_if_null_loads [OF assms] obtain d where d: "db ft1 = Some d" by blast
  have "findByTags_loop [] True d [] = map fst d"
    by (simp add: findByTags_loop_filter)
  moreover have "findByTags_loop [] False d [] = []"
    by (simp add: findByTags_loop_filter)
  ultimately show ?thesis using assms d by (simp add: findByTags_def)
qed

theorem findByTags_empty_query_witness:
  "findByTags node_sample loaded_sample [] True world_sample
     = (Inr [''/work/a.txt'', ''/work/b.txt''], loaded_sample, world_sample)
   \<and> findByTags node_sample loaded_sample [] False world_sample
     = (Inr [], loaded_sample, world_sample)"
proof -
  have a: "load_if_null node_sample loaded_sample world_sample
             = (Inr (), loaded_sample, world_sample)"
    by (simp add: load_if_null_def loaded_sample_def)
  show ?thesis using findByTags_empty_query [OF a] by (auto simp: loaded_sample_def)
qed

text \<open>
  Claim C6.  Once the store is loaded, \<open>findByTags\<close> in OR mode returns exactly the
  tracked paths whose tag set meets the query set, and in AND mode exactly those whose
  tag set includes the query set, in the order of the store.
\<close>

theorem findByTags_semantics:
  assumes "load_if_null env ft w = (Inr (), ft1, w1)"
  shows "\<exists>d. db ft1 = Some d
           \<and> findByTags env ft query False w =
               (Inr (map fst (filter (\<lambda>(p, r). set (tags r) \<inter> set query \<noteq> {}) d)), ft1, w1)
           \<and> findByTags env ft query True w =
               (Inr (map fst (filter (\<lambda>(p, r). set query \<subseteq> set (tags r)) d)), ft1, w1)"
proof -
  from load_if_null_loads [OF assms] obtain d where d: "db ft1 = Some d" by blast
  show ?thesis using assms d by (simp add: findByTags_def findByTags_loop_filter)
qed

theorem findByTags_semantics_witness:
  "findByTags node_sample loaded_sample [''work'', ''draft''] False world_sample
     = (Inr [''/work/a.txt'', ''/work/b.txt''], loaded_sample, world_sample)
   \<and> findByTags node_sample loaded_sample [''work'', ''draft''] True world_sample
     = (Inr [''/work/a.txt''], loaded_sample, world_sample)"
proof -
  have a: "load_if_null node_sample loaded_sample world_sample
             = (Inr (), loaded_sample, world_sample)"
    by (simp add: load_if_null_def loaded_sample_def)
  show ?thesis using findByTags_semantics [OF a, of "[''work'', ''draft'']"]
    by (auto simp: loaded_sample_def)
qed

text \<open>
  Claim C9.  Once the store is loaded, \<open>listAllTags\<close> returns the union of the tag sets
  of all records, without repetition and in ascending lexicographic order: it is the
  sorted list of that set, whatever the order of the records and of their tags.
\<close>

theorem listAllTags_sorted_union:
  assumes "load_if_null env ft w = (Inr (), ft1, w1)"
  shows "\<exists>d ts. db ft1 = Some d
           \<and> listAllTags env ft w = (Inr ts, ft1, w1)
           \<and> set ts = (\<Union>r\<in>set (map snd d). set (tags r))
           \<and> distinct ts \<and> sorted ts
           \<and> ts = sorted_list_of_set (\<Union>r\<in>set (map snd d). set (tags r))"
proof -
  from load_if_null_loads [OF assms] obtain d where d: "db ft1 = Some d" by blast
  let ?xs = "listAllTags_loop (map snd d) []"
  let ?ts = "Array_sort ?xs"
  have r: "listAllTags env ft w = (Inr ?ts, ft1, w1)"
    using assms d by (simp add: listAllTags_def)
  have s: "set ?xs = (\<Union>r\<in>set (map snd d). set (tags r))"
    by (simp add: set_listAllTags_loop)
  have dx: "distinct ?xs" by (simp add: distinct_listAllTags_loop)
  have 1: "set ?ts = (\<Union>r\<in>set (map snd d). set (tags r))"
    using s by (simp add: Array_sort_def)
  have 2: "distinct ?ts" using dx by (simp add: Array_sort_def)
  have 3: "sorted ?ts" by (simp add: Array_sort_def)
  have "sorted_list_of_set (set ?xs) = sort ?xs"
    using dx by (simp add: sorted_list_of_set_sort_remdups distinct_remdups_id)
  then have 4: "?ts = sorted_list_of_set (\<Union>r\<in>set (map snd d). set (tags r))"
    using s by (simp add: Array_sort_def)
  from d r 1 2 3 4 show ?thesis by blast
qed

theorem listAllTags_sorted_union_witness:
  "listAllTags node_sample loaded_sample world_sample
     = (Inr [''draft'', ''personal'', ''work''], loaded_sample, world_sample)"
proof -
  have a: "load_if_null node_sample loaded_sample world_sample
             = (Inr (), loaded_sample, world_sample)"
    by (simp add: load_if_null_def loaded_sample_def)
  have b: "sorted_list_of_set {''work'', ''draft'', ''personal''}
             = [''draft'', ''personal'', ''work'']"
    by (simp add: sorted_list_of_set_sort_remdups [of "[''work'', ''draft'', ''personal'']",
          simplified])
  from listAllTags_sorted_union [OF a] b show ?thesis
    by (auto simp: loaded_sample_def insert_commute)
qed

end
